theory Spec2Isabelle
  imports Main "HOL-Library.Word"
begin

unbundle bit_operations_syntax

section \<open>Python values and built-in operations\<close>

text \<open>
  The program is \<^verbatim>\<open>src/cli/seanstash.py\<close>. A Python \<^verbatim>\<open>str\<close> is modelled as a
  \<^typ>\<open>string\<close>, the list of its characters; a \<^typ>\<open>char\<close> stands for a code point
  below 256, and every built-in below is the Python one on such text. Python integers
  are \<^typ>\<open>int\<close>. An exception is a value of \<open>py_error\<close>; a computation that can
  raise returns \<open>py_error + 'a\<close>, with \<open>Inl\<close> for the exception.
\<close>

datatype py_error = IndexError | ValueError | ReError

text \<open>\<^verbatim>\<open>str.isspace\<close>, which decides what \<^verbatim>\<open>str.strip()\<close> removes.\<close>

definition isspace :: "char \<Rightarrow> bool" where
  "isspace c = (c \<in> set [CHR 0x09, CHR 0x0A, CHR 0x0B, CHR 0x0C, CHR 0x0D, CHR 0x1C,
                           CHR 0x1D, CHR 0x1E, CHR 0x1F, CHR 0x20, CHR 0x85, CHR 0xA0])"

definition py_strip :: "string \<Rightarrow> string" where
  "py_strip s = rev (dropWhile isspace (rev (dropWhile isspace s)))"

text \<open>\<^verbatim>\<open>s.lstrip(chars)\<close>: leading characters that occur in \<open>chars\<close> are removed.\<close>

definition py_lstrip :: "string \<Rightarrow> string \<Rightarrow> string" where
  "py_lstrip chars s = dropWhile (\<lambda>c. c \<in> set chars) s"

definition py_startswith :: "string \<Rightarrow> string \<Rightarrow> bool" where
  "py_startswith p s = (take (length p) s = p)"

text \<open>\<^verbatim>\<open>s.split(sep)\<close> for a separator of one character.\<close>

fun py_split :: "char \<Rightarrow> string \<Rightarrow> string list" where
  "py_split sep [] = [[]]"
| "py_split sep (c # cs) =
     (if c = sep then [] # py_split sep cs
      else (case py_split sep cs of [] \<Rightarrow> [[c]] | w # ws \<Rightarrow> (c # w) # ws))"

text \<open>\<^verbatim>\<open>s.split(sep, maxsplit)\<close>: at most \<open>maxsplit\<close> cuts, the rest is the last part.\<close>

fun py_splitn :: "nat \<Rightarrow> char \<Rightarrow> string \<Rightarrow> string list" where
  "py_splitn n sep [] = [[]]"
| "py_splitn 0 sep (c # cs) = [c # cs]"
| "py_splitn (Suc n) sep (c # cs) =
     (if c = sep then [] # py_splitn n sep cs
      else (case py_splitn (Suc n) sep cs of [] \<Rightarrow> [[c]] | w # ws \<Rightarrow> (c # w) # ws))"

text \<open>\<^verbatim>\<open>xs[i]\<close> for \<open>i \<ge> 0\<close>: out of range raises \<^verbatim>\<open>IndexError\<close>.\<close>

definition py_index :: "'a list \<Rightarrow> nat \<Rightarrow> py_error + 'a" where
  "py_index xs i = (if i < length xs then Inr (xs ! i) else Inl IndexError)"

text \<open>
  \<^verbatim>\<open>xs[start:]\<close>: a negative \<open>start\<close> counts from the end, and both ends are clamped
  to the list. So \<^verbatim>\<open>xs[-n:]\<close> is the last \<open>n\<close> elements for \<open>n > 0\<close>, all of \<open>xs\<close>
  for \<open>n = 0\<close>, and \<open>xs\<close> without its first \<open>-n\<close> elements for \<open>n < 0\<close>.
\<close>

definition py_slice_from :: "int \<Rightarrow> 'a list \<Rightarrow> 'a list" where
  "py_slice_from start xs =
     (if start < 0 then drop (nat (int (length xs) + start)) xs else drop (nat start) xs)"

text \<open>
  \<^verbatim>\<open>range(start, stop, step)\<close>: a zero step raises \<^verbatim>\<open>ValueError\<close>; a range whose
  step points away from \<open>stop\<close> is empty.
\<close>

definition py_range :: "int \<Rightarrow> int \<Rightarrow> int \<Rightarrow> py_error + int list" where
  "py_range start stop step =
     (if step = 0 then Inl ValueError
      else if 0 < step
        then Inr (map (\<lambda>k. start + int k * step) [0..<nat ((stop - start + step - 1) div step)])
        else Inr (map (\<lambda>k. start + int k * step) [0..<nat ((start - stop - step - 1) div (- step))]))"

text \<open>
  \<^verbatim>\<open>list(dict.fromkeys(xs))\<close>: the keys in the order of their first insertion.
\<close>

definition py_fromkeys :: "'a list \<Rightarrow> 'a list" where
  "py_fromkeys xs = fold (\<lambda>x keys. if x \<in> set keys then keys else keys @ [x]) xs []"

text \<open>
  \<^verbatim>\<open>int(s)\<close> in base 10: optional surrounding whitespace, an optional sign, then
  decimal digits, where single underscores may stand between two digits. The whitespace
  \<^verbatim>\<open>int\<close> accepts is narrower than \<^verbatim>\<open>str.isspace\<close> (it rejects the separators
  \<^verbatim>\<open>\x1c\<close> to \<^verbatim>\<open>\x1f\<close>), and CPython refuses more than 4300 digits (the default of
  \<^verbatim>\<open>sys.set_int_max_str_digits\<close>). \<open>None\<close> is the \<^verbatim>\<open>ValueError\<close>.
\<close>

definition int_space :: "char \<Rightarrow> bool" where
  "int_space c = (c \<in> set [CHR 0x09, CHR 0x0A, CHR 0x0B, CHR 0x0C, CHR 0x0D, CHR 0x20,
                             CHR 0x85, CHR 0xA0])"

definition is_digit :: "char \<Rightarrow> bool" where
  "is_digit c = (c \<in> set ''0123456789'')"

definition digit_value :: "char \<Rightarrow> int" where
  "digit_value c = int (of_char c) - 48"

fun int_digits :: "string \<Rightarrow> string option" where
  "int_digits [] = None"
| "int_digits [d] = (if is_digit d then Some [d] else None)"
| "int_digits (d # u # rest) =
     (if \<not> is_digit d then None
      else if u = CHR ''_'' then map_option ((#) d) (int_digits rest)
      else map_option ((#) d) (int_digits (u # rest)))"

definition py_int :: "string \<Rightarrow> int option" where
  "py_int s =
     (let t = rev (dropWhile int_space (rev (dropWhile int_space s)));
          negative = (t \<noteq> [] \<and> hd t = CHR ''-'');
          body = (if t \<noteq> [] \<and> (hd t = CHR ''-'' \<or> hd t = CHR ''+'') then tl t else t)
      in case int_digits body of
           None \<Rightarrow> None
         | Some ds \<Rightarrow>
             if 4300 < length ds then None
             else Some ((if negative then - 1 else 1) * foldl (\<lambda>a d. 10 * a + digit_value d) 0 ds))"


section \<open>The MD5 digest of a command\<close>

text \<open>
  \<^verbatim>\<open>hashlib.md5(cmd.encode()).hexdigest()\<close>: the UTF-8 bytes of the text, the MD5
  digest of RFC 1321 over 32-bit words, and its 32 lower-case hexadecimal digits.
\<close>

definition encode :: "string \<Rightarrow> 8 word list" where
  "encode s =
     concat (map (\<lambda>c. let n = of_char c :: nat in
                         if n < 128 then [of_nat n]
                         else [of_nat (192 + n div 64), of_nat (128 + n mod 64)]) s)"

definition md5_K :: "32 word list" where
  "md5_K = [
    0xd76aa478, 0xe8c7b756, 0x242070db, 0xc1bdceee, 0xf57c0faf, 0x4787c62a, 0xa8304613, 0xfd469501,
    0x698098d8, 0x8b44f7af, 0xffff5bb1, 0x895cd7be, 0x6b901122, 0xfd987193, 0xa679438e, 0x49b40821,
    0xf61e2562, 0xc040b340, 0x265e5a51, 0xe9b6c7aa, 0xd62f105d, 0x02441453, 0xd8a1e681, 0xe7d3fbc8,
    0x21e1cde6, 0xc33707d6, 0xf4d50d87, 0x455a14ed, 0xa9e3e905, 0xfcefa3f8, 0x676f02d9, 0x8d2a4c8a,
    0xfffa3942, 0x8771f681, 0x6d9d6122, 0xfde5380c, 0xa4beea44, 0x4bdecfa9, 0xf6bb4b60, 0xbebfbc70,
    0x289b7ec6, 0xeaa127fa, 0xd4ef3085, 0x04881d05, 0xd9d4d039, 0xe6db99e5, 0x1fa27cf8, 0xc4ac5665,
    0xf4292244, 0x432aff97, 0xab9423a7, 0xfc93a039, 0x655b59c3, 0x8f0ccc92, 0xffeff47d, 0x85845dd1,
    0x6fa87e4f, 0xfe2ce6e0, 0xa3014314, 0x4e0811a1, 0xf7537e82, 0xbd3af235, 0x2ad7d2bb, 0xeb86d391]"

definition md5_S :: "nat list" where
  "md5_S = [7, 12, 17, 22, 7, 12, 17, 22, 7, 12, 17, 22, 7, 12, 17, 22,
            5, 9, 14, 20, 5, 9, 14, 20, 5, 9, 14, 20, 5, 9, 14, 20,
            4, 11, 16, 23, 4, 11, 16, 23, 4, 11, 16, 23, 4, 11, 16, 23,
            6, 10, 15, 21, 6, 10, 15, 21, 6, 10, 15, 21, 6, 10, 15, 21]"

type_synonym md5_state = "32 word \<times> 32 word \<times> 32 word \<times> 32 word"

definition md5_round :: "32 word list \<Rightarrow> md5_state \<Rightarrow> nat \<Rightarrow> md5_state" where
  "md5_round m st i =
     (case st of (a, b, c, d) \<Rightarrow>
        let f = (if i < 16 then (b AND c) OR (NOT b AND d)
                 else if i < 32 then (d AND b) OR (NOT d AND c)
                 else if i < 48 then b XOR c XOR d
                 else c XOR (b OR NOT d));
            g = (if i < 16 then i
                 else if i < 32 then (5 * i + 1) mod 16
                 else if i < 48 then (3 * i + 5) mod 16
                 else (7 * i) mod 16);
            x = f + a + md5_K ! i + m ! g
        in (d, b + word_rotl (md5_S ! i) x, b, c))"

fun chunks :: "nat \<Rightarrow> 'a list \<Rightarrow> 'a list list" where
  "chunks n xs = (if n = 0 \<or> xs = [] then [] else take n xs # chunks n (drop n xs))"

declare chunks.simps [simp del]

definition le_word :: "8 word list \<Rightarrow> 32 word" where
  "le_word bs = foldr (\<lambda>b w. ucast b OR push_bit 8 w) bs 0"

definition md5_block :: "md5_state \<Rightarrow> 8 word list \<Rightarrow> md5_state" where
  "md5_block st blk =
     (case st of (a0, b0, c0, d0) \<Rightarrow>
        (case foldl (md5_round (map le_word (chunks 4 blk))) st [0..<64] of
           (a, b, c, d) \<Rightarrow> (a0 + a, b0 + b, c0 + c, d0 + d)))"

definition md5_pad :: "8 word list \<Rightarrow> 8 word list" where
  "md5_pad msg =
     msg @ [0x80] @ replicate ((119 - length msg mod 64) mod 64) 0
       @ map (\<lambda>i. ucast (drop_bit (8 * i) (of_nat (8 * length msg) :: 64 word))) [0..<8]"

definition md5_digest :: "8 word list \<Rightarrow> 8 word list" where
  "md5_digest msg =
     (case foldl md5_block (0x67452301, 0xefcdab89, 0x98badcfe, 0x10325476)
             (chunks 64 (md5_pad msg)) of
        (a, b, c, d) \<Rightarrow>
          concat (map (\<lambda>w. map (\<lambda>i. ucast (drop_bit (8 * i) w)) [0..<4]) [a, b, c, d]))"

definition hexdigest :: "8 word list \<Rightarrow> string" where
  "hexdigest bs =
     concat (map (\<lambda>b. [''0123456789abcdef'' ! (unat b div 16),
                          ''0123456789abcdef'' ! (unat b mod 16)]) bs)"

definition md5_hexdigest :: "string \<Rightarrow> string" where
  "md5_hexdigest cmd = hexdigest (md5_digest (encode cmd))"


section \<open>The world outside the program\<close>

text \<open>
  What the program reads and writes outside itself is a \<open>world\<close>: the three history
  files, the commands \<^verbatim>\<open>get_current_session_history\<close> obtains from a bash process,
  the regular-expression search of the \<^verbatim>\<open>re\<close> library, the clock, the working
  directory, the ledger file with whether it can be written, and the server behind
  \<^verbatim>\<open>requests.post\<close>. The configuration is a \<open>config\<close>: the options the modelled
  functions read, already parsed.
\<close>

datatype hfile = Missing | Unreadable | Content "string list"

datatype ledger_file = NoLedger | Corrupt | Ledger "string set"

datatype response = RequestException | Status int

record cmd_data =
  command :: string
  hash :: string
  timestamp :: string
  working_dir :: "string option"

record snippet =
  title :: string
  description :: string
  code :: string

record config =
  min_length :: int
  exclude_patterns :: string
  include_working_dir :: bool
  batch_size :: int
  dry_run :: bool

record world =
  zsh_history :: hfile
  bash_history :: hfile
  dot_history :: hfile
  session_history :: "string list"
  re_search :: "string \<Rightarrow> string \<Rightarrow> py_error + bool"
  now :: string
  cwd :: string
  ledger :: ledger_file
  ledger_writable :: bool
  post :: "nat \<Rightarrow> snippet \<Rightarrow> response"

text \<open>
  \<open>Content lines\<close> is a file that exists and reads as \<open>lines\<close> (what \<^verbatim>\<open>readlines\<close>
  returns, each line with its line end); \<open>Unreadable\<close> exists but opening or reading it
  raises. \<open>re_search w p s\<close> is \<^verbatim>\<open>re.search(p, s, re.IGNORECASE)\<close> as a truth value,
  or \<open>Inl ReError\<close> when \<open>p\<close> is not a regular expression. \<open>post w k s\<close> is what the
  \<open>k\<close>-th request of a run (counted from 0) gets for the snippet \<open>s\<close>: a status code, or
  a \<^verbatim>\<open>requests.exceptions.RequestException\<close>.
\<close>


section \<open>Reading the shell history\<close>

text \<open>
  The body of the loop over the lines of a history file, lines 83-91 and again lines
  138-147: \<open>Inr None\<close> when the line adds no command, \<open>Inr (Some c)\<close> when it adds \<open>c\<close>.
\<close>

definition parse_line :: "string \<Rightarrow> py_error + string option" where
  "parse_line line =
     (let clean_line = py_strip line in
      if clean_line = [] then Inr None
      else if py_startswith '': '' clean_line \<and> CHR '';'' \<in> set clean_line
        then (case py_index (py_splitn 1 CHR '';'' clean_line) 1 of
                Inl e \<Rightarrow> Inl e
              | Inr cmd \<Rightarrow> Inr (Some cmd))
        else Inr (Some clean_line))"

fun parse_lines :: "string list \<Rightarrow> py_error + string list" where
  "parse_lines [] = Inr []"
| "parse_lines (line # lines) =
     (case parse_line line of
        Inl e \<Rightarrow> Inl e
      | Inr r \<Rightarrow>
          (case parse_lines lines of
             Inl e \<Rightarrow> Inl e
           | Inr commands \<Rightarrow> Inr (case r of None \<Rightarrow> commands | Some c \<Rightarrow> c # commands)))"

text \<open>
  \<^verbatim>\<open>get_shell_history\<close>, lines 64-97. The scan of the candidate files returns the
  commands it collected, the files it looked at and the files it warned about.
\<close>

record scan =
  collected :: "string list"
  examined :: "string list"
  warned :: "string list"

definition history_files :: "world \<Rightarrow> (string \<times> hfile) list" where
  "history_files w =
     [(''.zsh_history'', zsh_history w), (''.bash_history'', bash_history w),
      (''.history'', dot_history w)]"

fun scan_files :: "int \<Rightarrow> (string \<times> hfile) list \<Rightarrow> scan" where
  "scan_files limit [] = \<lparr>collected = [], examined = [], warned = []\<rparr>"
| "scan_files limit ((name, Missing) # rest) =
     (let r = scan_files limit rest in r\<lparr>examined := name # examined r\<rparr>)"
| "scan_files limit ((name, Unreadable) # rest) =
     (let r = scan_files limit rest
      in r\<lparr>examined := name # examined r, warned := name # warned r\<rparr>)"
| "scan_files limit ((name, Content lines) # rest) =
     (case parse_lines (py_slice_from (- limit) lines) of
        Inl e \<Rightarrow>
          (let r = scan_files limit rest
           in r\<lparr>examined := name # examined r, warned := name # warned r\<rparr>)
      | Inr recent_lines \<Rightarrow>
          \<lparr>collected = recent_lines, examined = [name], warned = []\<rparr>)"

definition get_shell_history :: "world \<Rightarrow> int \<Rightarrow> string list" where
  "get_shell_history w limit =
     (let history_commands = collected (scan_files limit (history_files w))
      in if history_commands \<noteq> [] then py_slice_from (- limit) history_commands else [])"

definition get_current_session_history :: "world \<Rightarrow> string list" where
  "get_current_session_history w = session_history w"


section \<open>The line-numbered window and the history specification\<close>

text \<open>
  Lines 158-169 of \<^verbatim>\<open>get_specific_history_commands\<close>: the dictionary from line
  numbers to the last 800 commands.
\<close>

definition history_dict :: "string list \<Rightarrow> (int \<rightharpoonup> string)" where
  "history_dict all_commands =
     (let recent_commands = py_slice_from (- 800) all_commands;
          total_commands = int (length all_commands);
          start_line = max 1 (total_commands - 800 + 1)
      in fold (\<lambda>(i, cmd) d. d(start_line + int i \<mapsto> cmd))
           (List.enumerate 0 recent_commands) Map.empty)"

text \<open>
  Lines 184-219: the range \<^verbatim>\<open>start-end\<close> or the single line number. Every
  \<^verbatim>\<open>ValueError\<close> (a bound that is no integer, more than two parts) is caught and
  gives the empty list.
\<close>

definition resolve_spec :: "(int \<rightharpoonup> string) \<Rightarrow> string \<Rightarrow> string list" where
  "resolve_spec d spec =
     (if CHR ''-'' \<in> set spec then
        (case map py_int (py_split CHR ''-'' spec) of
           [Some start, Some stop] \<Rightarrow> List.map_filter d [start..stop]
         | _ \<Rightarrow> [])
      else
        (case py_int spec of
           None \<Rightarrow> []
         | Some line_num \<Rightarrow> (case d line_num of None \<Rightarrow> [] | Some c \<Rightarrow> [c])))"

definition get_specific_history_commands :: "world \<Rightarrow> string \<Rightarrow> string list" where
  "get_specific_history_commands w history_spec =
     (let spec = py_lstrip ''!'' history_spec in
      case zsh_history w of
        Missing \<Rightarrow> []
      | Unreadable \<Rightarrow> []
      | Content lines \<Rightarrow>
          (case parse_lines lines of
             Inl e \<Rightarrow> []
           | Inr all_commands \<Rightarrow>
               if all_commands = [] then []
               else resolve_spec (history_dict all_commands) spec))"


section \<open>Filtering\<close>

text \<open>
  \<^verbatim>\<open>filter_commands\<close>, lines 225-260. The inner loop over the exclusion patterns stops
  at the first pattern that matches; a pattern that is no regular expression raises out
  of the whole function. The time stamp is the reading of the clock, taken as the same
  for every command of one call.
\<close>

fun skip_command :: "(string \<Rightarrow> string \<Rightarrow> py_error + bool) \<Rightarrow> string list \<Rightarrow> string \<Rightarrow> py_error + bool" where
  "skip_command search [] cmd = Inr False"
| "skip_command search (pattern # patterns) cmd =
     (case search (py_strip pattern) cmd of
        Inl e \<Rightarrow> Inl e
      | Inr matched \<Rightarrow> if matched then Inr True else skip_command search patterns cmd)"

definition make_cmd_data :: "config \<Rightarrow> world \<Rightarrow> string \<Rightarrow> cmd_data" where
  "make_cmd_data cfg w cmd =
     \<lparr>command = cmd, hash = md5_hexdigest cmd, timestamp = now w,
      working_dir = (if include_working_dir cfg then Some (cwd w) else None)\<rparr>"

fun filter_loop :: "config \<Rightarrow> world \<Rightarrow> string list \<Rightarrow> string list \<Rightarrow> py_error + cmd_data list" where
  "filter_loop cfg w patterns [] = Inr []"
| "filter_loop cfg w patterns (c # commands) =
     (let cmd = py_strip c in
      if int (length cmd) < min_length cfg then filter_loop cfg w patterns commands
      else (case skip_command (re_search w) patterns cmd of
              Inl e \<Rightarrow> Inl e
            | Inr skip \<Rightarrow>
                if skip then filter_loop cfg w patterns commands
                else (case filter_loop cfg w patterns commands of
                        Inl e \<Rightarrow> Inl e
                      | Inr filtered \<Rightarrow> Inr (make_cmd_data cfg w cmd # filtered))))"

definition filter_commands :: "config \<Rightarrow> world \<Rightarrow> string list \<Rightarrow> py_error + cmd_data list" where
  "filter_commands cfg w commands =
     filter_loop cfg w (py_split CHR '','' (exclude_patterns cfg)) commands"


section \<open>The ledger of sent hashes\<close>

text \<open>
  \<^verbatim>\<open>load_sent_history\<close>, lines 262-271: a missing file and a file that does not load
  both give the empty set. \<^verbatim>\<open>save_sent_history\<close>, lines 273-283, returns the file as
  it is afterwards: the given set when the file can be written, the old file when
  opening it raises (the exception is caught).
\<close>

definition load_sent_history :: "world \<Rightarrow> string set" where
  "load_sent_history w = (case ledger w of Ledger hashes \<Rightarrow> hashes | _ \<Rightarrow> {})"

definition save_sent_history :: "world \<Rightarrow> string set \<Rightarrow> ledger_file" where
  "save_sent_history w hashes = (if ledger_writable w then Ledger hashes else ledger w)"


section \<open>Delivery\<close>

text \<open>
  \<^verbatim>\<open>send_commands_to_seanstash\<close>, lines 287-358. A snippet also carries the constant
  fields \<^verbatim>\<open>categories\<close>, \<^verbatim>\<open>isPublic\<close>, \<^verbatim>\<open>locked\<close> and, in its one fragment,
  \<^verbatim>\<open>file_name\<close>, \<^verbatim>\<open>language\<close> and \<^verbatim>\<open>position\<close>; they are left out.
\<close>

definition make_snippet :: "cmd_data \<Rightarrow> snippet" where
  "make_snippet c =
     \<lparr>title = ''Terminal: '' @ take 50 (command c) @ (if 50 < length (command c) then ''...'' else ''''),
      description = ''Command executed on '' @ take 10 (timestamp c) @ '' in ''
        @ (case working_dir c of None \<Rightarrow> ''unknown directory'' | Some dir \<Rightarrow> dir),
      code = command c\<rparr>"

text \<open>\<^verbatim>\<open>xs[i:j]\<close>, with negative indices counted from the end and both clamped.\<close>

definition py_slice :: "int \<Rightarrow> int \<Rightarrow> 'a list \<Rightarrow> 'a list" where
  "py_slice i j xs =
     (let n = int (length xs);
          lo = (if i < 0 then max 0 (n + i) else min i n);
          hi = (if j < 0 then max 0 (n + j) else min j n)
      in take (nat (hi - lo)) (drop (nat lo) xs))"

text \<open>
  The state of the two nested loops: the counter and the requests made so far, each with
  the response it got. \<open>Inl st\<close> is a \<^verbatim>\<open>RequestException\<close> raised in state \<open>st\<close>, which
  line 353 catches to return \<^verbatim>\<open>False\<close> at once.
\<close>

record send_state =
  success_count :: nat
  calls :: "(snippet \<times> response) list"

fun send_batch :: "world \<Rightarrow> snippet list \<Rightarrow> send_state \<Rightarrow> send_state + send_state" where
  "send_batch w [] st = Inr st"
| "send_batch w (s # batch) st =
     (case post w (length (calls st)) s of
        RequestException \<Rightarrow> Inl (st\<lparr>calls := calls st @ [(s, RequestException)]\<rparr>)
      | Status status_code \<Rightarrow>
          send_batch w batch
            \<lparr>success_count =
               (if status_code \<in> set [200, 201] then success_count st + 1 else success_count st),
             calls = calls st @ [(s, Status status_code)]\<rparr>)"

fun send_batches :: "config \<Rightarrow> world \<Rightarrow> snippet list list \<Rightarrow> send_state \<Rightarrow> send_state + send_state" where
  "send_batches cfg w [] st = Inr st"
| "send_batches cfg w (batch # batches) st =
     (if dry_run cfg
        then send_batches cfg w batches (st\<lparr>success_count := success_count st + length batch\<rparr>)
        else (case send_batch w batch st of
                Inl st' \<Rightarrow> Inl st'
              | Inr st' \<Rightarrow> send_batches cfg w batches st'))"

text \<open>
  What a call of \<^verbatim>\<open>send_commands_to_seanstash\<close> does: the value it returns (or the
  \<^verbatim>\<open>ValueError\<close> of a zero batch size, which nothing catches), the counter it reports
  as \<^verbatim>\<open>success_count\<close>, and the requests it made.
\<close>

record delivery =
  returned :: "py_error + bool"
  succeeded :: nat
  sent :: "(snippet \<times> response) list"

definition send_commands_to_seanstash :: "config \<Rightarrow> world \<Rightarrow> cmd_data list \<Rightarrow> delivery" where
  "send_commands_to_seanstash cfg w commands =
     (if commands = [] then \<lparr>returned = Inr True, succeeded = 0, sent = []\<rparr>
      else
        let snippets = map make_snippet commands in
        case py_range 0 (int (length snippets)) (batch_size cfg) of
          Inl e \<Rightarrow> \<lparr>returned = Inl e, succeeded = 0, sent = []\<rparr>
        | Inr starts \<Rightarrow>
            (case send_batches cfg w (map (\<lambda>i. py_slice i (i + batch_size cfg) snippets) starts)
                    \<lparr>success_count = 0, calls = []\<rparr> of
               Inl st \<Rightarrow> \<lparr>returned = Inr False, succeeded = success_count st, sent = calls st\<rparr>
             | Inr st \<Rightarrow>
                 \<lparr>returned = Inr (0 < success_count st), succeeded = success_count st,
                  sent = calls st\<rparr>))"


section \<open>The sync run\<close>

text \<open>
  \<^verbatim>\<open>run_sync\<close>, lines 360-400. The function returns nothing; what a run did is
  recorded as: the exception that ended it, if one did; the new commands it handed to
  delivery; the requests made; what delivery returned; the set it passed to
  \<^verbatim>\<open>save_sent_history\<close>, if it called it; and the ledger file afterwards.
\<close>

record sync_result =
  crashed :: "py_error option"
  attempted :: "cmd_data list"
  requests :: "(snippet \<times> response) list"
  delivered :: "bool option"
  saved :: "string set option"
  ledger_after :: ledger_file

definition run_sync :: "config \<Rightarrow> world \<Rightarrow> int \<Rightarrow> bool \<Rightarrow> sync_result" where
  "run_sync cfg w limit force =
     (let history_commands = get_shell_history w limit;
          session_commands = get_current_session_history w;
          all_commands = py_fromkeys (history_commands @ session_commands)
      in case filter_commands cfg w all_commands of
           Inl e \<Rightarrow>
             \<lparr>crashed = Some e, attempted = [], requests = [], delivered = None, saved = None,
              ledger_after = ledger w\<rparr>
         | Inr filtered_commands \<Rightarrow>
             let sent_hashes = (if \<not> force then load_sent_history w else {});
                 new_commands =
                   (if \<not> force then filter (\<lambda>c. hash c \<notin> sent_hashes) filtered_commands
                    else filtered_commands)
             in if new_commands = [] then
                  \<lparr>crashed = None, attempted = [], requests = [], delivered = None, saved = None,
                   ledger_after = ledger w\<rparr>
                else
                  let d = send_commands_to_seanstash cfg w new_commands in
                  case returned d of
                    Inl e \<Rightarrow>
                      \<lparr>crashed = Some e, attempted = new_commands, requests = sent d,
                       delivered = None, saved = None, ledger_after = ledger w\<rparr>
                  | Inr success \<Rightarrow>
                      if success \<and> \<not> dry_run cfg then
                        let new_hashes = hash ` set new_commands;
                            updated = sent_hashes \<union> new_hashes
                        in \<lparr>crashed = None, attempted = new_commands, requests = sent d,
                            delivered = Some success, saved = Some updated,
                            ledger_after = save_sent_history w updated\<rparr>
                      else
                        \<lparr>crashed = None, attempted = new_commands, requests = sent d,
                         delivered = Some success, saved = None, ledger_after = ledger w\<rparr>)"


section \<open>Notions used in the statements\<close>

text \<open>
  The test of line 341 on a response, and the requests with their responses when the
  snippets \<open>xs\<close> are all posted in order, the first as request number \<open>k\<close>.
\<close>

definition accepted :: "response \<Rightarrow> bool" where
  "accepted r = (case r of RequestException \<Rightarrow> False | Status status_code \<Rightarrow> status_code \<in> set [200, 201])"

definition answers :: "world \<Rightarrow> nat \<Rightarrow> snippet list \<Rightarrow> (snippet \<times> response) list" where
  "answers w k xs = map (\<lambda>(i, s). (s, post w (k + i) s)) (List.enumerate 0 xs)"

text \<open>
  Following the specification's words, not the code: a response whose status is in the
  2xx range.
\<close>

definition status_2xx :: "response \<Rightarrow> bool" where
  "status_2xx r = (case r of RequestException \<Rightarrow> False | Status status_code \<Rightarrow> 200 \<le> status_code \<and> status_code < 300)"


section \<open>Sample inputs\<close>

text \<open>
  A regular-expression search to run the model on: the case-insensitive substring
  search, which is what \<^verbatim>\<open>re.search(p, s, re.IGNORECASE)\<close> computes on ASCII text for a
  pattern \<open>p\<close> that has no metacharacter.
\<close>

definition lower :: "char \<Rightarrow> char" where
  "lower c =
     (case map_of (zip ''ABCDEFGHIJKLMNOPQRSTUVWXYZ'' ''abcdefghijklmnopqrstuvwxyz'') c of
        None \<Rightarrow> c
      | Some l \<Rightarrow> l)"

definition literal_search :: "string \<Rightarrow> string \<Rightarrow> py_error + bool" where
  "literal_search p s =
     Inr (list_ex (\<lambda>i. py_startswith (map lower p) (drop i (map lower s))) [0..<Suc (length s)])"

definition sample_config :: config where
  "sample_config =
     \<lparr>min_length = 3, exclude_patterns = ''cd,ls,pwd,exit,clear,history'',
      include_working_dir = True, batch_size = 10, dry_run = False\<rparr>"

text \<open>
  A world with a zsh history of four lines (an extended-format line, a plain line that
  the patterns exclude, a blank line, a plain line), a bash history that is never
  reached, an empty ledger and a server that accepts every request.
\<close>

definition sample_world :: world where
  "sample_world =
     \<lparr>zsh_history = Content ['': 1690000000:0;git status'' @ [CHR 0x0A], ''ls'' @ [CHR 0x0A],
                              ''   '' @ [CHR 0x0A], ''make test'' @ [CHR 0x0A]],
      bash_history = Content [''echo bash'' @ [CHR 0x0A]],
      dot_history = Missing,
      session_history = [],
      re_search = literal_search,
      now = ''2024-05-01T10:00:00'',
      cwd = ''/home/user'',
      ledger = Ledger {},
      ledger_writable = True,
      post = (\<lambda>k s. Status 201)\<rparr>"


text \<open>
  The records \<^verbatim>\<open>filter_commands\<close> makes of the two commands of that history that pass
  the filter; a server that rejects the first request of a run with 401 and accepts the
  others; a server that answers 204 to every request; a server that answers 500 to every
  request; and the regular-expression search with the answer of the \<^verbatim>\<open>re\<close> library to
  the pattern \<^verbatim>\<open>[\<close>, which is no regular expression.
\<close>

definition git_status :: cmd_data where
  "git_status = make_cmd_data sample_config sample_world ''git status''"

definition make_test :: cmd_data where
  "make_test = make_cmd_data sample_config sample_world ''make test''"

definition first_rejected :: world where
  "first_rejected = sample_world\<lparr>post := (\<lambda>k s. if k = 0 then Status 401 else Status 201)\<rparr>"

definition always_204 :: world where
  "always_204 = sample_world\<lparr>post := (\<lambda>k s. Status 204)\<rparr>"

definition always_500 :: world where
  "always_500 = sample_world\<lparr>post := (\<lambda>k s. Status 500)\<rparr>"

definition bracket_search :: "string \<Rightarrow> string \<Rightarrow> py_error + bool" where
  "bracket_search p s = (if p = ''['' then Inl ReError else literal_search p s)"


text \<open>
  The sample world with a ledger that holds the hash of an earlier command
  (\<^verbatim>\<open>ls -la /tmp\<close>), and the sample world on the day after a run has written its
  ledger file \<open>l\<close>.
\<close>

definition earlier_ledger :: world where
  "earlier_ledger = sample_world\<lparr>ledger := Ledger {''f22166dfa92077e857148fc9cd360aee''}\<rparr>"

definition next_day :: "ledger_file \<Rightarrow> world" where
  "next_day l = sample_world\<lparr>now := ''2024-05-02T09:30:00'', ledger := l\<rparr>"


section \<open>Parsing a history line\<close>

lemma py_splitn_0: "py_splitn 0 sep s = [s]"
  by (cases s) simp_all

lemma py_splitn_1:
  "sep \<in> set s \<Longrightarrow>
     py_splitn (Suc 0) sep s = [takeWhile (\<lambda>c. c \<noteq> sep) s, tl (dropWhile (\<lambda>c. c \<noteq> sep) s)]"
  by (induction s) (auto simp: py_splitn_0)

lemma first_split:
  "sep \<in> set s \<Longrightarrow>
     s = takeWhile (\<lambda>c. c \<noteq> sep) s @ sep # tl (dropWhile (\<lambda>c. c \<noteq> sep) s)"
  by (induction s) auto

lemma py_strip_Nil_iff: "py_strip line = [] \<longleftrightarrow> (\<forall>c \<in> set line. isspace c)"
proof -
  have "(\<forall>c \<in> set (dropWhile isspace line). isspace c) \<longleftrightarrow> dropWhile isspace line = []"
  proof
    assume a: "\<forall>c \<in> set (dropWhile isspace line). isspace c"
    show "dropWhile isspace line = []"
    proof (rule ccontr)
      assume n: "dropWhile isspace line \<noteq> []"
      then have "\<not> isspace (hd (dropWhile isspace line))" by (rule hd_dropWhile)
      with a n show False by simp
    qed
  qed (auto dest: set_dropWhileD)
  then show ?thesis
    by (simp add: py_strip_def)
qed

text \<open>
  The index \<^verbatim>\<open>[1]\<close> of line 87 is guarded by \<^verbatim>\<open>';' in clean_line\<close>, so it never
  raises: the loop body is a total function of the line.
\<close>

lemma parse_line_eq:
  "parse_line line =
     (let clean_line = py_strip line in
      if clean_line = [] then Inr None
      else if py_startswith '': '' clean_line \<and> CHR '';'' \<in> set clean_line
        then Inr (Some (tl (dropWhile (\<lambda>c. c \<noteq> CHR '';'') clean_line)))
        else Inr (Some clean_line))"
  by (simp add: parse_line_def Let_def py_splitn_1 py_index_def)

lemma parse_lines_Inr: "\<exists>cmds. parse_lines lines = Inr cmds"
  by (induction lines) (auto simp: parse_line_eq Let_def)

text \<open>
  C6. For every line of a history file: a line of whitespace only adds no command; a
  trimmed line that starts with \<^verbatim>\<open>": "\<close> and contains \<^verbatim>\<open>";"\<close> adds what follows its
  first \<^verbatim>\<open>";"\<close> (the trimmed line is \<open>pre @ ";" # cmd\<close> with no \<^verbatim>\<open>";"\<close> in \<open>pre\<close>, and
  \<open>cmd\<close> is added); every other line adds the whole trimmed line. The line
  \<^verbatim>\<open>": 1690000000:0;git status"\<close> adds \<^verbatim>\<open>"git status"\<close>.
\<close>

theorem parse_line_cases:
  "((\<forall>c \<in> set line. isspace c) \<longrightarrow> parse_line line = Inr None) \<and>
   (py_strip line \<noteq> [] \<and> py_startswith '': '' (py_strip line) \<and> CHR '';'' \<in> set (py_strip line) \<longrightarrow>
      (\<exists>pre cmd. py_strip line = pre @ CHR '';'' # cmd \<and> CHR '';'' \<notin> set pre \<and>
                  parse_line line = Inr (Some cmd))) \<and>
   (py_strip line \<noteq> [] \<and>
      \<not> (py_startswith '': '' (py_strip line) \<and> CHR '';'' \<in> set (py_strip line)) \<longrightarrow>
      parse_line line = Inr (Some (py_strip line))) \<and>
   parse_line '': 1690000000:0;git status'' = Inr (Some ''git status'')"
proof (intro conjI impI)
  assume "\<forall>c \<in> set line. isspace c"
  then show "parse_line line = Inr None"
    by (simp add: parse_line_eq py_strip_Nil_iff)
next
  assume a: "py_strip line \<noteq> [] \<and> py_startswith '': '' (py_strip line) \<and>
             CHR '';'' \<in> set (py_strip line)"
  let ?s = "py_strip line"
  let ?pre = "takeWhile (\<lambda>c. c \<noteq> CHR '';'') ?s"
  let ?cmd = "tl (dropWhile (\<lambda>c. c \<noteq> CHR '';'') ?s)"
  from a have "?s = ?pre @ CHR '';'' # ?cmd"
    using first_split [of "CHR '';''" ?s] by simp
  moreover have "CHR '';'' \<notin> set ?pre"
    by (auto dest: set_takeWhileD)
  moreover from a have "parse_line line = Inr (Some ?cmd)"
    by (simp add: parse_line_eq)
  ultimately show "\<exists>pre cmd. py_strip line = pre @ CHR '';'' # cmd \<and> CHR '';'' \<notin> set pre \<and>
                  parse_line line = Inr (Some cmd)"
    by blast
next
  assume "py_strip line \<noteq> [] \<and>
          \<not> (py_startswith '': '' (py_strip line) \<and> CHR '';'' \<in> set (py_strip line))"
  then show "parse_line line = Inr (Some (py_strip line))"
    by (auto simp: parse_line_eq)
next
  show "parse_line '': 1690000000:0;git status'' = Inr (Some ''git status'')"
    by (simp add: parse_line_eq py_strip_def isspace_def py_startswith_def)
qed

theorem parse_line_cases_witness:
  "parse_line (''  '' @ [CHR 0x09, CHR 0x0A]) = Inr None \<and>
   (\<exists>pre cmd. py_strip ('': 42:0;ls -la;pwd'' @ [CHR 0x0A]) = pre @ CHR '';'' # cmd \<and>
               CHR '';'' \<notin> set pre \<and>
               parse_line ('': 42:0;ls -la;pwd'' @ [CHR 0x0A]) = Inr (Some cmd)) \<and>
   parse_line (''make test'' @ [CHR 0x0A]) = Inr (Some ''make test'')"
  using parse_line_cases [of "''  '' @ [CHR 0x09, CHR 0x0A]"]
        parse_line_cases [of "'': 42:0;ls -la;pwd'' @ [CHR 0x0A]"]
        parse_line_cases [of "''make test'' @ [CHR 0x0A]"]
  by (simp add: py_strip_def isspace_def py_startswith_def)


section \<open>The line-numbered window\<close>


lemma fold_enumerate_lookup_gen:
  assumes f: "\<And>i c d. f (i, c) d = d(s + int i \<mapsto> c)"
  shows "fold f (List.enumerate n xs) d k =
     (if s + int n \<le> k \<and> k < s + int n + int (length xs)
      then Some (xs ! nat (k - s - int n)) else d k)"
proof (induction xs arbitrary: n d)
  case Nil
  show ?case by auto
next
  case (Cons x xs)
  have "fold f (List.enumerate n (x # xs)) d k =
          fold f (List.enumerate (Suc n) xs) (d(s + int n \<mapsto> x)) k"
    by (simp add: f)
  also have "\<dots> = (if s + int (Suc n) \<le> k \<and> k < s + int (Suc n) + int (length xs)
      then Some (xs ! nat (k - s - int (Suc n))) else (d(s + int n \<mapsto> x)) k)"
    by (rule Cons.IH)
  also have "\<dots> = (if s + int n \<le> k \<and> k < s + int n + int (length (x # xs))
      then Some ((x # xs) ! nat (k - s - int n)) else d k)"
  proof -
    have "nat (k - s - int (Suc n)) = nat (k - s - int n) - 1"
      by arith
    moreover have "k = s + int n \<Longrightarrow> nat (k - s - int n) = 0"
      by simp
    moreover have "s + int (Suc n) \<le> k \<Longrightarrow> nat (k - s - int n) \<noteq> 0"
      by simp
    ultimately show ?thesis
      by (auto simp: nth_Cons')
  qed
  finally show ?case .
qed

lemma fold_enumerate_lookup:
  "fold (\<lambda>(i, cmd) d. d(s + int i \<mapsto> cmd)) (List.enumerate n xs) d k =
     (if s + int n \<le> k \<and> k < s + int n + int (length xs)
      then Some (xs ! nat (k - s - int n)) else d k)"
  by (rule fold_enumerate_lookup_gen) simp

lemma history_dict_lookup:
  "history_dict all_commands k =
     (if max 1 (int (length all_commands) - 800 + 1) \<le> k \<and> k \<le> int (length all_commands)
      then Some (all_commands ! nat (k - 1)) else None)"
proof (cases "800 < length all_commands")
  case True
  then show ?thesis
    by (auto simp: history_dict_def Let_def py_slice_from_def fold_enumerate_lookup
          nat_diff_distrib' nat_add_distrib max_def)
next
  case False
  then show ?thesis
    by (auto simp: history_dict_def Let_def py_slice_from_def fold_enumerate_lookup max_def)
qed

lemma dom_history_dict:
  "dom (history_dict all_commands) =
     {max 1 (int (length all_commands) - 800 + 1) .. int (length all_commands)}"
  by (auto simp: dom_def history_dict_lookup split: if_splits)

text \<open>
  C5. For a non-empty parsed history of \<open>total\<close> commands, the window has exactly
  \<open>min total 800\<close> entries; its keys are the consecutive integers from
  \<open>max 1 (total - 800 + 1)\<close> to \<open>total\<close>; the newest command has the key \<open>total\<close>;
  every key is positive; and the \<open>i\<close>-th of the retained commands, oldest first, has the
  key \<open>max 1 (total - 800 + 1) + i\<close>, so the keys grow by one with each more recent
  command.
\<close>

theorem history_dict_window:
  assumes "all_commands \<noteq> []"
  shows "dom (history_dict all_commands) =
           {max 1 (int (length all_commands) - 800 + 1) .. int (length all_commands)} \<and>
         card (dom (history_dict all_commands)) = min (length all_commands) 800 \<and>
         history_dict all_commands (int (length all_commands)) = Some (last all_commands) \<and>
         (\<forall>k \<in> dom (history_dict all_commands). 0 < k) \<and>
         (\<forall>i < min (length all_commands) 800.
            history_dict all_commands (max 1 (int (length all_commands) - 800 + 1) + int i) =
              Some (py_slice_from (- 800) all_commands ! i))"
proof (intro conjI)
  show "dom (history_dict all_commands) =
          {max 1 (int (length all_commands) - 800 + 1) .. int (length all_commands)}"
    by (rule dom_history_dict)
  show "card (dom (history_dict all_commands)) = min (length all_commands) 800"
    using assms by (auto simp: dom_history_dict max_def min_def)
  show "history_dict all_commands (int (length all_commands)) = Some (last all_commands)"
    using assms by (cases all_commands) (auto simp: history_dict_lookup last_conv_nth nat_diff_distrib')
  show "\<forall>k \<in> dom (history_dict all_commands). 0 < k"
    by (auto simp: dom_history_dict)
  show "\<forall>i < min (length all_commands) 800.
            history_dict all_commands (max 1 (int (length all_commands) - 800 + 1) + int i) =
              Some (py_slice_from (- 800) all_commands ! i)"
    by (auto simp: history_dict_lookup py_slice_from_def max_def nat_diff_distrib' nat_add_distrib
          algebra_simps)
qed


theorem history_dict_window_witness:
  "[''git status'', ''ls'', ''make test''] \<noteq> [] \<and>
   dom (history_dict [''git status'', ''ls'', ''make test'']) = {1..3} \<and>
   card (dom (history_dict [''git status'', ''ls'', ''make test''])) = 3 \<and>
   history_dict [''git status'', ''ls'', ''make test''] 3 = Some ''make test'' \<and>
   dom (history_dict (replicate 801 ''ls'')) = {2..801} \<and>
   card (dom (history_dict (replicate 801 ''ls''))) = 800 \<and>
   history_dict (replicate 801 ''ls'') 801 = Some ''ls''"
  using history_dict_window [of "[''git status'', ''ls'', ''make test'']"]
        history_dict_window [of "replicate 801 ''ls''"]
  by simp


section \<open>The priority of the history files\<close>

lemma scan_files_skip:
  assumes "\<forall>f \<in> set pre. \<forall>ls. snd f \<noteq> Content ls"
  shows "scan_files limit (pre @ rest) =
           (let r = scan_files limit rest
            in r\<lparr>examined := map fst pre @ examined r,
                 warned := map fst (filter (\<lambda>f. snd f = Unreadable) pre) @ warned r\<rparr>)"
  using assms
proof (induction pre)
  case Nil
  show ?case by simp
next
  case (Cons f pre)
  obtain name h where f: "f = (name, h)" by (cases f)
  with Cons show ?case
    by (cases h) (auto simp: Let_def)
qed

text \<open>
  C9. The candidate files are \<^verbatim>\<open>.zsh_history\<close>, \<^verbatim>\<open>.bash_history\<close>, \<^verbatim>\<open>.history\<close>, in
  this order. When the first candidate that exists and reads without an exception is
  \<open>name\<close>, after the candidates \<open>pre\<close> that are missing or raise: the commands are the
  ones parsed from the last \<open>limit\<close> lines of \<open>name\<close> (also when there are none), the
  files looked at are \<open>pre\<close> and \<open>name\<close> and none of the later ones, and the warnings
  are for the files of \<open>pre\<close> that raised. When no candidate reads, the result is empty.
\<close>

theorem get_shell_history_priority:
  "map fst (history_files w) = [''.zsh_history'', ''.bash_history'', ''.history''] \<and>
   (\<forall>pre name lines rest.
      history_files w = pre @ (name, Content lines) # rest \<and>
      (\<forall>f \<in> set pre. \<forall>ls. snd f \<noteq> Content ls) \<longrightarrow>
      (\<exists>cmds. parse_lines (py_slice_from (- limit) lines) = Inr cmds \<and>
         collected (scan_files limit (history_files w)) = cmds \<and>
         examined (scan_files limit (history_files w)) = map fst pre @ [name] \<and>
         warned (scan_files limit (history_files w)) =
           map fst (filter (\<lambda>f. snd f = Unreadable) pre) \<and>
         get_shell_history w limit = (if cmds \<noteq> [] then py_slice_from (- limit) cmds else []))) \<and>
   ((\<forall>f \<in> set (history_files w). \<forall>ls. snd f \<noteq> Content ls) \<longrightarrow>
      get_shell_history w limit = [] \<and>
      examined (scan_files limit (history_files w)) = map fst (history_files w) \<and>
      warned (scan_files limit (history_files w)) =
        map fst (filter (\<lambda>f. snd f = Unreadable) (history_files w)))"
proof (intro conjI allI impI)
  show "map fst (history_files w) = [''.zsh_history'', ''.bash_history'', ''.history'']"
    by (simp add: history_files_def)
next
  fix pre name lines rest
  assume a: "history_files w = pre @ (name, Content lines) # rest \<and>
             (\<forall>f \<in> set pre. \<forall>ls. snd f \<noteq> Content ls)"
  obtain cmds where cmds: "parse_lines (py_slice_from (- limit) lines) = Inr cmds"
    using parse_lines_Inr by blast
  from a have s: "scan_files limit (history_files w) =
      \<lparr>collected = cmds, examined = map fst pre @ [name],
       warned = map fst (filter (\<lambda>f. snd f = Unreadable) pre)\<rparr>"
    by (simp add: scan_files_skip cmds)
  show "\<exists>cmds. parse_lines (py_slice_from (- limit) lines) = Inr cmds \<and>
         collected (scan_files limit (history_files w)) = cmds \<and>
         examined (scan_files limit (history_files w)) = map fst pre @ [name] \<and>
         warned (scan_files limit (history_files w)) =
           map fst (filter (\<lambda>f. snd f = Unreadable) pre) \<and>
         get_shell_history w limit = (if cmds \<noteq> [] then py_slice_from (- limit) cmds else [])"
    using cmds by (simp add: s get_shell_history_def)
next
  assume a: "\<forall>f \<in> set (history_files w). \<forall>ls. snd f \<noteq> Content ls"
  then have s: "scan_files limit (history_files w) =
      \<lparr>collected = [], examined = map fst (history_files w),
       warned = map fst (filter (\<lambda>f. snd f = Unreadable) (history_files w))\<rparr>"
    using scan_files_skip [of "history_files w" limit "[]"] by simp
  show "get_shell_history w limit = []"
    by (simp add: s get_shell_history_def)
  show "examined (scan_files limit (history_files w)) = map fst (history_files w)"
    by (simp add: s)
  show "warned (scan_files limit (history_files w)) =
        map fst (filter (\<lambda>f. snd f = Unreadable) (history_files w))"
    by (simp add: s)
qed

theorem get_shell_history_priority_witness:
  "history_files (sample_world\<lparr>zsh_history := Unreadable\<rparr>) =
     [(''.zsh_history'', Unreadable)] @ (''.bash_history'', Content [''echo bash'' @ [CHR 0x0A]])
       # [(''.history'', Missing)] \<and>
   examined (scan_files 50 (history_files (sample_world\<lparr>zsh_history := Unreadable\<rparr>))) =
     [''.zsh_history'', ''.bash_history''] \<and>
   warned (scan_files 50 (history_files (sample_world\<lparr>zsh_history := Unreadable\<rparr>))) =
     [''.zsh_history''] \<and>
   get_shell_history (sample_world\<lparr>zsh_history := Unreadable\<rparr>) 50 = [''echo bash''] \<and>
   examined (scan_files 50 (history_files (sample_world\<lparr>zsh_history := Content [''  '' @ [CHR 0x0A]]\<rparr>))) =
     [''.zsh_history''] \<and>
   get_shell_history (sample_world\<lparr>zsh_history := Content [''  '' @ [CHR 0x0A]]\<rparr>) 50 = []"
  using get_shell_history_priority [of "sample_world\<lparr>zsh_history := Unreadable\<rparr>" 50,
          THEN conjunct2, THEN conjunct1, rule_format,
          of "[(''.zsh_history'', Unreadable)]" "''.bash_history''"
             "[''echo bash'' @ [CHR 0x0A]]" "[(''.history'', Missing)]"]
        get_shell_history_priority [of "sample_world\<lparr>zsh_history := Content [''  '' @ [CHR 0x0A]]\<rparr>" 50,
          THEN conjunct2, THEN conjunct1, rule_format,
          of "[]" "''.zsh_history''" "[''  '' @ [CHR 0x0A]]"
             "[(''.bash_history'', Content [''echo bash'' @ [CHR 0x0A]]), (''.history'', Missing)]"]
  by (simp add: sample_world_def history_files_def py_slice_from_def parse_line_eq py_strip_def
        isspace_def py_startswith_def)


section \<open>An empty exclusion pattern\<close>

lemma skip_command_empty_pattern:
  assumes "\<forall>c. search [] c = Inr True"
    and "[] \<in> py_strip ` set patterns"
    and "\<forall>p \<in> set (takeWhile (\<lambda>p. py_strip p \<noteq> []) patterns). \<exists>b. search (py_strip p) cmd = Inr b"
  shows "skip_command search patterns cmd = Inr True"
  using assms(2,3)
proof (induction patterns)
  case Nil
  then show ?case by simp
next
  case (Cons p ps)
  show ?case
  proof (cases "py_strip p = []")
    case True
    with assms(1) show ?thesis by simp
  next
    case False
    with Cons.prems obtain b where b: "search (py_strip p) cmd = Inr b" by auto
    from False Cons.prems have "[] \<in> py_strip ` set ps" by auto
    moreover from False Cons.prems
    have "\<forall>p \<in> set (takeWhile (\<lambda>p. py_strip p \<noteq> []) ps). \<exists>b. search (py_strip p) cmd = Inr b"
      by simp
    ultimately have "skip_command search ps cmd = Inr True" by (rule Cons.IH)
    with b show ?thesis by simp
  qed
qed

text \<open>
  C10. The pattern list is the configured string split on commas, each part stripped.
  If one of the patterns is empty, then, the empty regular expression matching every
  command, \<^verbatim>\<open>filter_commands\<close> returns the empty list for every input. This is for a
  pattern list whose patterns before the first empty one are regular expressions: one
  that is not raises \<^verbatim>\<open>re.error\<close> out of the function as soon as a command of
  sufficient length reaches it.
\<close>

text \<open>
  C10, as amended. The pattern list is the configured string split on commas, each part stripped.
  If one of the patterns is empty, then, the empty regular expression matching every
  command, \<^verbatim>\<open>filter_commands\<close> returns the empty list for every input. This is for a
  pattern list whose patterns before the first empty one are regular expressions: one
  that is not raises \<^verbatim>\<open>re.error\<close> out of the function as soon as a command of
  sufficient length reaches it.
\<close>

theorem filter_commands_empty_pattern:
  assumes "[] \<in> py_strip ` set (py_split CHR '','' (exclude_patterns cfg))"
    and "\<forall>c. re_search w [] c = Inr True"
    and "\<forall>p \<in> set (takeWhile (\<lambda>p. py_strip p \<noteq> []) (py_split CHR '','' (exclude_patterns cfg))).
           \<forall>c. \<exists>b. re_search w (py_strip p) c = Inr b"
  shows "filter_commands cfg w commands = Inr []"
proof -
  have skip: "skip_command (re_search w) (py_split CHR '','' (exclude_patterns cfg)) cmd = Inr True"
    for cmd
    using assms by (intro skip_command_empty_pattern) auto
  have "filter_loop cfg w (py_split CHR '','' (exclude_patterns cfg)) commands = Inr []"
    by (induction commands) (simp_all add: Let_def skip)
  then show ?thesis by (simp add: filter_commands_def)
qed

lemma literal_search_Nil: "literal_search [] c = Inr True"
  by (auto simp: literal_search_def py_startswith_def list_ex_iff)

lemma literal_search_total: "\<exists>b. literal_search p c = Inr b"
  by (simp add: literal_search_def)

theorem filter_commands_empty_pattern_witness:
  "py_split CHR '','' ''cd,ls,'' = [''cd'', ''ls'', ''''] \<and>
   filter_commands (sample_config\<lparr>exclude_patterns := ''cd,ls,''\<rparr>) sample_world
     [''git status'', ''make test''] = Inr [] \<and>
   py_split CHR '','' '''' = [''''] \<and>
   filter_commands (sample_config\<lparr>exclude_patterns := ''''\<rparr>) sample_world
     [''git status'', ''make test''] = Inr []"
proof -
  have empty: "re_search sample_world [] c = Inr True" for c
    by (simp add: sample_world_def literal_search_Nil)
  have total: "\<exists>b. re_search sample_world p c = Inr b" for p c
    by (simp add: sample_world_def literal_search_total)
  have "filter_commands (sample_config\<lparr>exclude_patterns := ''cd,ls,''\<rparr>) sample_world
          [''git status'', ''make test''] = Inr []"
    by (rule filter_commands_empty_pattern) (simp_all add: py_strip_def empty total)
  moreover
  have "filter_commands (sample_config\<lparr>exclude_patterns := ''''\<rparr>) sample_world
          [''git status'', ''make test''] = Inr []"
    by (rule filter_commands_empty_pattern) (simp_all add: py_strip_def empty total)
  ultimately show ?thesis by simp
qed

text \<open>
  C10 as stated fails when a pattern before the empty one is no regular expression: with
  the patterns \<^verbatim>\<open>"[,"\<close> the list is \<^verbatim>\<open>["[", ""]\<close>, the empty pattern matches the
  command, and \<^verbatim>\<open>filter_commands\<close> raises instead of returning the empty list.
\<close>

theorem invalid_pattern_raises:
  "py_split CHR '','' ''[,'' = [''['', ''''] \<and>
   bracket_search '''' ''git status'' = Inr True \<and>
   filter_commands (sample_config\<lparr>exclude_patterns := ''[,''\<rparr>)
     (sample_world\<lparr>re_search := bracket_search\<rparr>) [''git status''] = Inl ReError"
  by (simp add: filter_commands_def bracket_search_def literal_search_Nil py_strip_def isspace_def
        sample_config_def Let_def)


section \<open>Delivery: batches, soft failures and the dry run\<close>

lemma answers_Nil: "answers w k [] = []"
  by (simp add: answers_def)

lemma answers_Cons: "answers w k (x # xs) = (x, post w k x) # answers w (Suc k) xs"
proof -
  have "map (\<lambda>(i, s). (s, post w (k + i) s)) (List.enumerate (Suc n) xs) =
        map (\<lambda>(i, s). (s, post w (Suc k + i) s)) (List.enumerate n xs)" for n
    by (induction xs arbitrary: n) simp_all
  then show ?thesis by (simp add: answers_def)
qed

lemma length_answers: "length (answers w k xs) = length xs"
  by (simp add: answers_def)

lemma map_fst_answers: "map fst (answers w k xs) = xs"
  by (induction xs arbitrary: k) (simp_all add: answers_Nil answers_Cons)

lemma answers_nth:
  "i < length xs \<Longrightarrow> answers w k xs ! i = (xs ! i, post w (k + i) (xs ! i))"
  by (simp add: answers_def nth_enumerate_eq)

text \<open>What the inner loop does, in terms of the responses of the server.\<close>

lemma send_batch_answers:
  "case send_batch w xs st of
     Inr st' \<Rightarrow>
       st' = \<lparr>success_count = success_count st
                 + length (filter (\<lambda>c. accepted (snd c)) (answers w (length (calls st)) xs)),
              calls = calls st @ answers w (length (calls st)) xs\<rparr> \<and>
       RequestException \<notin> snd ` set (answers w (length (calls st)) xs)
   | Inl st' \<Rightarrow>
       (\<exists>n < length xs.
          snd (answers w (length (calls st)) xs ! n) = RequestException \<and>
          RequestException \<notin> snd ` set (take n (answers w (length (calls st)) xs)) \<and>
          st' = \<lparr>success_count = success_count st
                    + length (filter (\<lambda>c. accepted (snd c)) (take n (answers w (length (calls st)) xs))),
                 calls = calls st @ take (Suc n) (answers w (length (calls st)) xs)\<rparr>)"
proof (induction xs arbitrary: st)
  case Nil
  show ?case by (simp add: answers_Nil)
next
  case (Cons x xs)
  show ?case
  proof (cases "post w (length (calls st)) x")
    case RequestException
    then show ?thesis
      by (auto simp: answers_Cons intro!: exI [of _ 0])
  next
    case (Status status_code)
    let ?st1 = "\<lparr>success_count =
               (if status_code \<in> set [200, 201] then success_count st + 1 else success_count st),
             calls = calls st @ [(x, Status status_code)]\<rparr>"
    have step: "send_batch w (x # xs) st = send_batch w xs ?st1"
      using Status by simp
    have len: "length (calls ?st1) = Suc (length (calls st))" by simp
    show ?thesis
    proof (cases "send_batch w xs ?st1")
      case (Inr st')
      with Cons.IH [of ?st1] Status show ?thesis
        by (auto simp: step answers_Cons accepted_def)
    next
      case (Inl st')
      with Cons.IH [of ?st1] obtain n where n: "n < length xs"
        "snd (answers w (Suc (length (calls st))) xs ! n) = RequestException"
        "RequestException \<notin> snd ` set (take n (answers w (Suc (length (calls st))) xs))"
        "st' = \<lparr>success_count = success_count ?st1
                    + length (filter (\<lambda>c. accepted (snd c)) (take n (answers w (Suc (length (calls st))) xs))),
                 calls = calls ?st1 @ take (Suc n) (answers w (Suc (length (calls st))) xs)\<rparr>"
        by auto
      from n Status Inl show ?thesis
        by (auto simp: step answers_Cons accepted_def intro!: exI [of _ "Suc n"])
    qed
  qed
qed

lemma send_batch_append:
  "send_batch w (xs @ ys) st =
     (case send_batch w xs st of Inl st' \<Rightarrow> Inl st' | Inr st' \<Rightarrow> send_batch w ys st')"
  by (induction xs arbitrary: st) (simp_all split: response.splits)

lemma send_batches_concat:
  "\<not> dry_run cfg \<Longrightarrow> send_batches cfg w batches st = send_batch w (concat batches) st"
  by (induction batches arbitrary: st) (simp_all add: send_batch_append split: sum.splits)

lemma send_batches_dry_run:
  "dry_run cfg \<Longrightarrow>
     send_batches cfg w batches st =
       Inr (st\<lparr>success_count := success_count st + length (concat batches)\<rparr>)"
  by (induction batches arbitrary: st) simp_all

lemma py_slice_nonneg:
  "0 \<le> i \<Longrightarrow> i \<le> j \<Longrightarrow> py_slice i j xs = take (nat (j - i)) (drop (nat i) xs)"
  by (cases "i \<le> int (length xs)") (auto simp: py_slice_def Let_def min_def)

lemma concat_take_drop:
  "concat (map (\<lambda>k. take b (drop (k * b) xs)) [0..<m]) = take (m * b) xs"
proof (induction m)
  case 0
  show ?case by simp
next
  case (Suc m)
  have "take (Suc m * b) xs = take (m * b + b) xs"
    by (simp add: add.commute)
  also have "\<dots> = take (m * b) xs @ take b (drop (m * b) xs)"
    by (rule take_add)
  finally show ?case using Suc by simp
qed

lemma ceil_div_bound:
  fixes n b :: int
  assumes "0 < b"
  shows "n \<le> ((n + b - 1) div b) * b"
proof -
  have "n + b - 1 = ((n + b - 1) div b) * b + (n + b - 1) mod b" by simp
  moreover have "(n + b - 1) mod b < b" using assms by simp
  ultimately show ?thesis by linarith
qed

text \<open>For a positive batch size the batches of lines 326-327 are a partition of the list.\<close>

lemma batches_concat:
  assumes "0 < b"
  shows "\<exists>starts. py_range 0 (int (length xs)) b = Inr starts \<and>
           concat (map (\<lambda>i. py_slice i (i + b) xs) starts) = xs"
proof -
  let ?m = "nat ((int (length xs) + b - 1) div b)"
  let ?starts = "map (\<lambda>k. 0 + int k * b) [0..<?m]"
  have r: "py_range 0 (int (length xs)) b = Inr ?starts"
    using assms by (simp add: py_range_def)
  have "map (\<lambda>i. py_slice i (i + b) xs) ?starts =
        map (\<lambda>k. take (nat b) (drop (k * nat b) xs)) [0..<?m]"
    using assms by (simp add: py_slice_nonneg nat_mult_distrib)
  then have "concat (map (\<lambda>i. py_slice i (i + b) xs) ?starts) = take (?m * nat b) xs"
    by (simp only: concat_take_drop)
  moreover have "length xs \<le> ?m * nat b"
  proof -
    have "int (length xs) \<le> ((int (length xs) + b - 1) div b) * b"
      using assms by (rule ceil_div_bound)
    moreover have "0 \<le> (int (length xs) + b - 1) div b"
      using assms by (simp add: pos_imp_zdiv_nonneg_iff)
    ultimately have "int (length xs) \<le> int (?m * nat b)"
      using assms by simp
    then show ?thesis by linarith
  qed
  ultimately have "concat (map (\<lambda>i. py_slice i (i + b) xs) ?starts) = xs" by simp
  with r show ?thesis by blast
qed

lemma py_range_negative:
  assumes "b < 0"
  shows "py_range 0 (int n) b = Inr []"
proof -
  have "(0 - int n - b - 1) div (- b) \<le> 0"
  proof (cases "0 \<le> 0 - int n - b - 1")
    case True
    moreover have "0 - int n - b - 1 < - b" by simp
    ultimately have "(0 - int n - b - 1) div (- b) = 0"
      by (rule div_pos_pos_trivial)
    then show ?thesis by simp
  next
    case False
    with assms show ?thesis by (intro div_nonpos_pos_le0) simp_all
  qed
  with assms show ?thesis by (simp add: py_range_def)
qed

lemma accepted_iff: "accepted r \<longleftrightarrow> r = Status 200 \<or> r = Status 201"
  by (cases r) (auto simp: accepted_def)

text \<open>Delivery in dry-run mode.\<close>

lemma send_dry_run_sent:
  assumes "dry_run cfg"
  shows "sent (send_commands_to_seanstash cfg w commands) = []"
  using assms
  by (auto simp: send_commands_to_seanstash_def Let_def send_batches_dry_run split: sum.splits)

lemma send_dry_run_count:
  assumes "dry_run cfg" and "0 < batch_size cfg"
  shows "succeeded (send_commands_to_seanstash cfg w commands) = length commands \<and>
         returned (send_commands_to_seanstash cfg w commands) = Inr True"
proof (cases "commands = []")
  case True
  then show ?thesis by (simp add: send_commands_to_seanstash_def)
next
  case False
  obtain starts where
    "py_range 0 (int (length (map make_snippet commands))) (batch_size cfg) = Inr starts"
    "concat (map (\<lambda>i. py_slice i (i + batch_size cfg) (map make_snippet commands)) starts) =
       map make_snippet commands"
    using batches_concat [OF assms(2)] by blast
  with False assms(1) show ?thesis
    by (simp add: send_commands_to_seanstash_def Let_def send_batches_dry_run)
qed

text \<open>Delivery with requests, by the sign of the batch size.\<close>

lemma send_positive:
  assumes "\<not> dry_run cfg" and "0 < batch_size cfg" and "commands \<noteq> []"
  shows "send_commands_to_seanstash cfg w commands =
           (case send_batch w (map make_snippet commands) \<lparr>success_count = 0, calls = []\<rparr> of
              Inl st \<Rightarrow> \<lparr>returned = Inr False, succeeded = success_count st, sent = calls st\<rparr>
            | Inr st \<Rightarrow> \<lparr>returned = Inr (0 < success_count st), succeeded = success_count st,
                          sent = calls st\<rparr>)"
proof -
  obtain starts where
    "py_range 0 (int (length (map make_snippet commands))) (batch_size cfg) = Inr starts"
    "concat (map (\<lambda>i. py_slice i (i + batch_size cfg) (map make_snippet commands)) starts) =
       map make_snippet commands"
    using batches_concat [OF assms(2)] by blast
  with assms(1,3) show ?thesis
    by (simp add: send_commands_to_seanstash_def Let_def send_batches_concat)
qed

lemma send_nonpositive:
  assumes "\<not> dry_run cfg" and "batch_size cfg \<le> 0" and "commands \<noteq> []"
  shows "send_commands_to_seanstash cfg w commands =
           \<lparr>returned = (if batch_size cfg = 0 then Inl ValueError else Inr False),
            succeeded = 0, sent = []\<rparr>"
proof (cases "batch_size cfg = 0")
  case True
  with assms(3) show ?thesis
    by (simp add: send_commands_to_seanstash_def Let_def py_range_def)
next
  case False
  with assms(2) have "batch_size cfg < 0" by simp
  then have "py_range 0 (int (length (map make_snippet commands))) (batch_size cfg) = Inr []"
    by (rule py_range_negative)
  with False assms(3) show ?thesis
    by (simp add: send_commands_to_seanstash_def Let_def)
qed

lemma send_outcome:
  fixes w :: world and cfg :: config and commands :: "cmd_data list"
  assumes "\<not> dry_run cfg" and "commands \<noteq> []"
  defines "d \<equiv> send_commands_to_seanstash cfg w commands"
  shows "succeeded d = length (filter (\<lambda>c. accepted (snd c)) (sent d)) \<and>
         (\<exists>n \<le> length commands. sent d = take n (answers w 0 (map make_snippet commands))) \<and>
         (\<forall>i < length (sent d). snd (sent d ! i) \<noteq> RequestException \<and> Suc i < length commands
            \<longrightarrow> Suc i < length (sent d)) \<and>
         (RequestException \<in> snd ` set (sent d) \<longrightarrow> returned d = Inr False) \<and>
         (RequestException \<notin> snd ` set (sent d) \<longrightarrow>
            (batch_size cfg = 0 \<and> returned d = Inl ValueError \<and> sent d = []) \<or>
            (batch_size cfg < 0 \<and> returned d = Inr False \<and> sent d = []) \<or>
            (0 < batch_size cfg \<and> returned d = Inr (0 < succeeded d) \<and>
             sent d = answers w 0 (map make_snippet commands)))"
proof (cases "0 < batch_size cfg")
  case False
  then have "batch_size cfg \<le> 0" by simp
  from send_nonpositive [OF assms(1) this assms(2), where w = w] False show ?thesis
    by (auto simp: d_def intro!: exI [of _ 0])
next
  case True
  let ?xs = "map make_snippet commands"
  let ?st0 = "\<lparr>success_count = 0, calls = []\<rparr>"
  note eq = send_positive [OF assms(1) True assms(2), where w = w]
  show ?thesis
  proof (cases "send_batch w ?xs ?st0")
    case (Inr st')
    with send_batch_answers [where w = w and xs = ?xs and st = ?st0]
    have st': "st' = \<lparr>success_count = length (filter (\<lambda>c. accepted (snd c)) (answers w 0 ?xs)),
                      calls = answers w 0 ?xs\<rparr>"
      and no: "RequestException \<notin> snd ` set (answers w 0 ?xs)"
      by simp_all
    have "take (length commands) (answers w 0 ?xs) = answers w 0 ?xs"
      by (simp add: length_answers)
    then have "\<exists>n \<le> length commands. answers w 0 ?xs = take n (answers w 0 ?xs)"
      by (metis order_refl)
    with True no show ?thesis
      by (simp add: d_def eq Inr st' length_answers)
  next
    case (Inl st')
    with send_batch_answers [where w = w and xs = ?xs and st = ?st0] obtain n where n: "n < length ?xs"
      "snd (answers w 0 ?xs ! n) = RequestException"
      "st' = \<lparr>success_count = length (filter (\<lambda>c. accepted (snd c)) (take n (answers w 0 ?xs))),
              calls = take (Suc n) (answers w 0 ?xs)\<rparr>"
      by auto
    from n(1) have tk: "take (Suc n) (answers w 0 ?xs) = take n (answers w 0 ?xs) @ [answers w 0 ?xs ! n]"
      by (simp add: take_Suc_conv_app_nth length_answers)
    have "\<not> accepted (snd (answers w 0 ?xs ! n))"
      using n(2) by (simp add: accepted_def)
    then have cnt: "length (filter (\<lambda>c. accepted (snd c)) (take (Suc n) (answers w 0 ?xs))) =
               length (filter (\<lambda>c. accepted (snd c)) (take n (answers w 0 ?xs)))"
      by (simp add: tk)
    have mem: "RequestException \<in> snd ` set (take (Suc n) (answers w 0 ?xs))"
      using n(2) by (simp add: tk)
    have "\<exists>m \<le> length commands. take (Suc n) (answers w 0 ?xs) = take m (answers w 0 ?xs)"
      using n(1) by (intro exI [of _ "Suc n"]) simp
    moreover have "\<forall>i < length (take (Suc n) (answers w 0 ?xs)).
        snd (take (Suc n) (answers w 0 ?xs) ! i) \<noteq> RequestException \<and> Suc i < length commands
          \<longrightarrow> Suc i < length (take (Suc n) (answers w 0 ?xs))"
    proof (intro allI impI)
      fix i
      assume i: "i < length (take (Suc n) (answers w 0 ?xs))"
        and ne: "snd (take (Suc n) (answers w 0 ?xs) ! i) \<noteq> RequestException \<and> Suc i < length commands"
      from i n(1) have "i \<le> n" by (simp add: length_answers)
      moreover from ne n(2) i have "i \<noteq> n" by auto
      ultimately show "Suc i < length (take (Suc n) (answers w 0 ?xs))"
        using n(1) by (simp add: length_answers)
    qed
    ultimately show ?thesis using cnt mem
      by (simp add: d_def eq Inl n(3))
  qed
qed


lemmas send_defs = send_commands_to_seanstash_def py_range_def py_slice_def Let_def

lemma sample_world_simps:
  "session_history sample_world = []"
  "re_search sample_world = literal_search"
  "ledger sample_world = Ledger {}"
  "ledger_writable sample_world"
  "post sample_world = (\<lambda>k s. Status 201)"
  by (simp_all add: sample_world_def)

lemma sample_config_simps:
  "min_length sample_config = 3"
  "exclude_patterns sample_config = ''cd,ls,pwd,exit,clear,history''"
  "batch_size sample_config = 10"
  "\<not> dry_run sample_config"
  by (simp_all add: sample_config_def)

text \<open>
  C3, as amended. In a delivery that is no dry run, the counter is the number of requests
  whose status was 200 or 201; the \<open>i\<close>-th request is for the \<open>i\<close>-th command and gets
  what the server answers to it; and a request that got a status, whichever it is (401
  and the other 2xx codes included), is followed by the request for the next command
  while commands remain.
\<close>

theorem soft_failures:
  fixes cfg :: config and w :: world and commands :: "cmd_data list"
  defines "d \<equiv> send_commands_to_seanstash cfg w commands"
  assumes "\<not> dry_run cfg"
  shows "succeeded d = length (filter (\<lambda>c. snd c = Status 200 \<or> snd c = Status 201) (sent d)) \<and>
         (\<forall>i < length (sent d).
            sent d ! i = (make_snippet (commands ! i), post w i (make_snippet (commands ! i)))) \<and>
         (\<forall>i < length (sent d). snd (sent d ! i) \<noteq> RequestException \<and> Suc i < length commands
            \<longrightarrow> Suc i < length (sent d))"
proof (cases "commands = []")
  case True
  then show ?thesis by (simp add: d_def send_commands_to_seanstash_def)
next
  case False
  note o = send_outcome [OF assms(2) False, where w = w, folded d_def]
  from o obtain n where n: "n \<le> length commands"
    "sent d = take n (answers w 0 (map make_snippet commands))" by blast
  have "\<forall>i < length (sent d).
            sent d ! i = (make_snippet (commands ! i), post w i (make_snippet (commands ! i)))"
    using n by (simp add: length_answers answers_nth)
  with o show ?thesis by (simp add: accepted_iff)
qed

lemma send_first_rejected:
  "send_commands_to_seanstash sample_config first_rejected [git_status, make_test] =
     \<lparr>returned = Inr True, succeeded = 1,
      sent = [(make_snippet git_status, Status 401), (make_snippet make_test, Status 201)]\<rparr>"
  by (simp add: send_defs sample_config_def first_rejected_def)

theorem soft_failures_witness:
  "\<not> dry_run sample_config \<and>
   map snd (sent (send_commands_to_seanstash sample_config first_rejected [git_status, make_test])) =
     [Status 401, Status 201] \<and>
   succeeded (send_commands_to_seanstash sample_config first_rejected [git_status, make_test]) = 1"
  using soft_failures [of sample_config first_rejected "[git_status, make_test]"]
  by (simp add: send_first_rejected) (simp add: sample_config_def)

text \<open>
  C3 as stated fails: 204 is a status of the 2xx range, and the two items that get it
  are not counted as succeeded.
\<close>

theorem status_204_not_counted:
  "status_2xx (Status 204) \<and>
   sent (send_commands_to_seanstash sample_config always_204 [git_status, make_test]) =
     [(make_snippet git_status, Status 204), (make_snippet make_test, Status 204)] \<and>
   succeeded (send_commands_to_seanstash sample_config always_204 [git_status, make_test]) = 0"
  by (simp add: send_defs sample_config_def always_204_def status_2xx_def)

text \<open>
  C8, as amended. With the dry-run flag set, delivery makes no request; for a positive
  batch size it reports every item as succeeded (the counter is the number of commands
  and the call returns \<^verbatim>\<open>True\<close>); and a run makes no request, does not call
  \<^verbatim>\<open>save_sent_history\<close> and leaves the ledger file as it was.
\<close>

theorem dry_run_no_effect:
  assumes "dry_run cfg"
  shows "sent (send_commands_to_seanstash cfg w commands) = [] \<and>
         (0 < batch_size cfg \<longrightarrow>
            succeeded (send_commands_to_seanstash cfg w commands) = length commands \<and>
            returned (send_commands_to_seanstash cfg w commands) = Inr True) \<and>
         requests (run_sync cfg w limit force) = [] \<and>
         saved (run_sync cfg w limit force) = None \<and>
         ledger_after (run_sync cfg w limit force) = ledger w"
proof (intro conjI impI)
  show "sent (send_commands_to_seanstash cfg w commands) = []"
    using assms by (rule send_dry_run_sent)
  show "requests (run_sync cfg w limit force) = []"
    using assms
    by (auto simp: run_sync_def Let_def send_dry_run_sent split: sum.splits)
  show "saved (run_sync cfg w limit force) = None"
    using assms by (auto simp: run_sync_def Let_def split: sum.splits)
  show "ledger_after (run_sync cfg w limit force) = ledger w"
    using assms by (auto simp: run_sync_def Let_def split: sum.splits)
next
  assume "0 < batch_size cfg"
  with assms show "succeeded (send_commands_to_seanstash cfg w commands) = length commands"
    and "returned (send_commands_to_seanstash cfg w commands) = Inr True"
    by (simp_all add: send_dry_run_count)
qed

theorem dry_run_no_effect_witness:
  "dry_run (sample_config\<lparr>dry_run := True\<rparr>) \<and>
   0 < batch_size (sample_config\<lparr>dry_run := True\<rparr>) \<and>
   sent (send_commands_to_seanstash (sample_config\<lparr>dry_run := True\<rparr>) sample_world
     [git_status, make_test]) = [] \<and>
   succeeded (send_commands_to_seanstash (sample_config\<lparr>dry_run := True\<rparr>) sample_world
     [git_status, make_test]) = 2 \<and>
   returned (send_commands_to_seanstash (sample_config\<lparr>dry_run := True\<rparr>) sample_world
     [git_status, make_test]) = Inr True \<and>
   requests (run_sync (sample_config\<lparr>dry_run := True\<rparr>) sample_world 50 False) = [] \<and>
   ledger_after (run_sync (sample_config\<lparr>dry_run := True\<rparr>) sample_world 50 False) = Ledger {}"
  using dry_run_no_effect [of "sample_config\<lparr>dry_run := True\<rparr>" sample_world
          "[git_status, make_test]" 50 False]
  by (simp add: sample_config_def) (simp add: sample_world_def)

text \<open>
  C8 as stated fails for a batch size below 1: with \<^verbatim>\<open>batch_size = -1\<close> the range of
  line 326 is empty, no batch is formed, and a dry run of two commands reports 0 of 2
  and returns \<^verbatim>\<open>False\<close>.
\<close>

theorem dry_run_negative_batch_size:
  "dry_run (sample_config\<lparr>dry_run := True, batch_size := - 1\<rparr>) \<and>
   length [git_status, make_test] = 2 \<and>
   succeeded (send_commands_to_seanstash (sample_config\<lparr>dry_run := True, batch_size := - 1\<rparr>)
     sample_world [git_status, make_test]) = 0 \<and>
   returned (send_commands_to_seanstash (sample_config\<lparr>dry_run := True, batch_size := - 1\<rparr>)
     sample_world [git_status, make_test]) = Inr False"
  by (simp add: send_defs sample_config_def)



section \<open>The ledger commit of a run\<close>

lemma run_sync_delivery:
  assumes "filter_commands cfg w (py_fromkeys (get_shell_history w limit @ get_current_session_history w))
             = Inr filtered"
    and "new = (if \<not> force then filter (\<lambda>c. hash c \<notin> load_sent_history w) filtered else filtered)"
    and "new \<noteq> []"
    and "base = (if \<not> force then load_sent_history w else {})"
  shows "run_sync cfg w limit force =
           (case returned (send_commands_to_seanstash cfg w new) of
              Inl e \<Rightarrow>
                \<lparr>crashed = Some e, attempted = new,
                 requests = sent (send_commands_to_seanstash cfg w new),
                 delivered = None, saved = None, ledger_after = ledger w\<rparr>
            | Inr success \<Rightarrow>
                if success \<and> \<not> dry_run cfg then
                  \<lparr>crashed = None, attempted = new,
                   requests = sent (send_commands_to_seanstash cfg w new),
                   delivered = Some success, saved = Some (base \<union> hash ` set new),
                   ledger_after = save_sent_history w (base \<union> hash ` set new)\<rparr>
                else
                  \<lparr>crashed = None, attempted = new,
                   requests = sent (send_commands_to_seanstash cfg w new),
                   delivered = Some success, saved = None, ledger_after = ledger w\<rparr>)"
  using assms by (cases force) (auto simp: run_sync_def Let_def split: sum.splits)

lemma run_sync_nothing:
  assumes "filter_commands cfg w (py_fromkeys (get_shell_history w limit @ get_current_session_history w))
             = Inr filtered"
    and "(if \<not> force then filter (\<lambda>c. hash c \<notin> load_sent_history w) filtered else filtered) = []"
  shows "run_sync cfg w limit force =
           \<lparr>crashed = None, attempted = [], requests = [], delivered = None, saved = None,
            ledger_after = ledger w\<rparr>"
  using assms by (cases force) (simp_all add: run_sync_def Let_def)

lemma run_sync_filter_raises:
  assumes "filter_commands cfg w (py_fromkeys (get_shell_history w limit @ get_current_session_history w))
             = Inl e"
  shows "run_sync cfg w limit force =
           \<lparr>crashed = Some e, attempted = [], requests = [], delivered = None, saved = None,
            ledger_after = ledger w\<rparr>"
  using assms by (simp add: run_sync_def Let_def)

lemma sample_history:
  assumes "zsh_history w = zsh_history sample_world"
  shows "get_shell_history w 50 = [''git status'', ''ls'', ''make test'']"
  using assms
  by (simp add: get_shell_history_def history_files_def sample_world_def py_slice_from_def
        parse_line_def py_strip_def isspace_def py_startswith_def py_index_def Let_def)

lemma sample_filter:
  assumes "re_search w = literal_search" and "min_length cfg = 3"
    and "exclude_patterns cfg = ''cd,ls,pwd,exit,clear,history''"
  shows "filter_commands cfg w [''git status'', ''ls'', ''make test''] =
           Inr [make_cmd_data cfg w ''git status'', make_cmd_data cfg w ''make test'']"
  using assms
  by (simp add: filter_commands_def py_strip_def isspace_def literal_search_def lower_def
        py_startswith_def Let_def)

lemma hash_make_cmd_data [simp]: "hash (make_cmd_data cfg w c) = md5_hexdigest c"
  by (simp add: make_cmd_data_def)

lemma command_make_cmd_data [simp]: "command (make_cmd_data cfg w c) = c"
  by (simp add: make_cmd_data_def)

text \<open>The commands a run over the sample history hands to the filter, and what passes it.\<close>

lemma sample_run_filtered:
  assumes "zsh_history w = zsh_history sample_world" and "session_history w = []"
    and "re_search w = literal_search" and "min_length cfg = 3"
    and "exclude_patterns cfg = ''cd,ls,pwd,exit,clear,history''"
  shows "filter_commands cfg w (py_fromkeys (get_shell_history w 50 @ get_current_session_history w)) =
           Inr [make_cmd_data cfg w ''git status'', make_cmd_data cfg w ''make test'']"
proof -
  have "py_fromkeys (get_shell_history w 50 @ get_current_session_history w) =
          [''git status'', ''ls'', ''make test'']"
    using assms(1,2)
    by (simp add: sample_history get_current_session_history_def py_fromkeys_def)
  with assms(3-5) show ?thesis by (simp add: sample_filter)
qed

lemma run_first_rejected:
  "run_sync sample_config first_rejected 50 False =
     \<lparr>crashed = None,
      attempted = [make_cmd_data sample_config first_rejected ''git status'',
                   make_cmd_data sample_config first_rejected ''make test''],
      requests = [(make_snippet (make_cmd_data sample_config first_rejected ''git status''), Status 401),
                  (make_snippet (make_cmd_data sample_config first_rejected ''make test''), Status 201)],
      delivered = Some True,
      saved = Some {md5_hexdigest ''git status'', md5_hexdigest ''make test''},
      ledger_after = Ledger {md5_hexdigest ''git status'', md5_hexdigest ''make test''}\<rparr>"
proof -
  have f: "filter_commands sample_config first_rejected
             (py_fromkeys (get_shell_history first_rejected 50 @ get_current_session_history first_rejected)) =
           Inr [make_cmd_data sample_config first_rejected ''git status'',
                make_cmd_data sample_config first_rejected ''make test'']"
    by (rule sample_run_filtered) (simp_all add: first_rejected_def sample_world_simps sample_config_simps)
  have l: "load_sent_history first_rejected = {}" "ledger_writable first_rejected"
    "post first_rejected = (\<lambda>k s. if k = 0 then Status 401 else Status 201)"
    by (simp_all add: load_sent_history_def first_rejected_def sample_world_simps)
  have s: "send_commands_to_seanstash sample_config first_rejected [r1, r2] =
     \<lparr>returned = Inr True, succeeded = 1,
      sent = [(make_snippet r1, Status 401), (make_snippet r2, Status 201)]\<rparr>" for r1 r2
    by (simp add: send_defs sample_config_simps l)
  show ?thesis
    by (subst run_sync_delivery [OF f refl _ refl])
      (simp_all add: l s save_sent_history_def sample_config_simps insert_commute)
qed

text \<open>
  C2. For a run that is no dry run and in which no request raised: if at least one
  request got a status that delivery counts as success (\<open>accepted\<close>: 200 or 201), every
  new command was sent, \<^verbatim>\<open>save_sent_history\<close> is called with the hashes of all of them
  added to the loaded set (the empty set under \<^verbatim>\<open>force\<close>), whatever status each item
  got, and a writable ledger file then holds exactly that set; if no request got such a
  status, \<^verbatim>\<open>save_sent_history\<close> is not called and the ledger file is as before.
\<close>

theorem partial_batch_commit:
  fixes cfg :: config and w :: world and limit :: int and force :: bool
  defines "r \<equiv> run_sync cfg w limit force"
  defines "base \<equiv> (if \<not> force then load_sent_history w else {})"
  assumes "\<not> dry_run cfg" and "RequestException \<notin> snd ` set (requests r)"
  shows "((\<exists>c \<in> set (requests r). accepted (snd c)) \<longrightarrow>
            map fst (requests r) = map make_snippet (attempted r) \<and>
            saved r = Some (base \<union> hash ` set (attempted r)) \<and>
            (ledger_writable w \<longrightarrow> ledger_after r = Ledger (base \<union> hash ` set (attempted r)))) \<and>
         (\<not> (\<exists>c \<in> set (requests r). accepted (snd c)) \<longrightarrow>
            saved r = None \<and> ledger_after r = ledger w)"
proof (cases "filter_commands cfg w (py_fromkeys (get_shell_history w limit @ get_current_session_history w))")
  case (Inl e)
  then show ?thesis by (simp add: r_def run_sync_filter_raises)
next
  case (Inr filtered)
  define new where
    "new = (if \<not> force then filter (\<lambda>c. hash c \<notin> load_sent_history w) filtered else filtered)"
  show ?thesis
  proof (cases "new = []")
    case True
    with Inr show ?thesis by (simp add: r_def run_sync_nothing new_def)
  next
    case False
    define d where "d = send_commands_to_seanstash cfg w new"
    have b: "base = (if \<not> force then load_sent_history w else {})"
      by (simp add: base_def)
    note rs = run_sync_delivery [OF Inr new_def False b, folded d_def r_def]
    have req: "requests r = sent d"
      by (simp add: rs split: sum.splits)
    note o = send_outcome [OF assms(3) False, where w = w, folded d_def]
    have no: "RequestException \<notin> snd ` set (sent d)"
      using assms(4) req by simp
    from o no have
      "(returned d = Inl ValueError \<and> sent d = []) \<or>
       (returned d = Inr False \<and> sent d = []) \<or>
       (returned d = Inr (0 < succeeded d) \<and> sent d = answers w 0 (map make_snippet new))"
      by blast
    then consider
        "returned d = Inl ValueError" "sent d = []"
      | "returned d = Inr False" "sent d = []"
      | "returned d = Inr (0 < succeeded d)" "sent d = answers w 0 (map make_snippet new)"
      by blast
    then show ?thesis
    proof cases
      case 1
      then show ?thesis by (simp add: rs)
    next
      case 2
      then show ?thesis by (simp add: rs)
    next
      case 3
      from o have cnt: "succeeded d = length (filter (\<lambda>c. accepted (snd c)) (sent d))"
        by simp
      have ex: "0 < succeeded d \<longleftrightarrow> (\<exists>c \<in> set (sent d). accepted (snd c))"
        by (simp add: cnt filter_empty_conv)
      show ?thesis
      proof (cases "0 < succeeded d")
        case True
        with 3 assms(3) ex show ?thesis
          by (simp add: rs map_fst_answers save_sent_history_def)
      next
        case False
        with 3 assms(3) ex show ?thesis
          by (simp add: rs)
      qed
    qed
  qed
qed

theorem partial_batch_commit_witness:
  "\<not> dry_run sample_config \<and>
   map snd (requests (run_sync sample_config first_rejected 50 False)) = [Status 401, Status 201] \<and>
   map command (attempted (run_sync sample_config first_rejected 50 False)) =
     [''git status'', ''make test''] \<and>
   saved (run_sync sample_config first_rejected 50 False) =
     Some {md5_hexdigest ''git status'', md5_hexdigest ''make test''} \<and>
   ledger_after (run_sync sample_config first_rejected 50 False) =
     Ledger {md5_hexdigest ''git status'', md5_hexdigest ''make test''}"
  using partial_batch_commit [of sample_config first_rejected 50 False]
  by (simp add: run_first_rejected sample_config_simps)

end
